theory Spec2Isabelle
  imports Main
begin

section \<open>Python values used by the bot\<close>

text \<open>
  A Python \<open>str\<close> is a sequence of Unicode code points and \<open>len\<close> counts code points,
  so a string is modelled as a list of code-point numbers. \<open>str\<close> embeds an ASCII
  literal.
\<close>

type_synonym pystr = "nat list"

definition str :: "string \<Rightarrow> pystr" where
  "str s = map of_char s"

text \<open>
  Exceptions that the modelled code can meet: the three built-in ones that the source's
  own expressions raise, and \<open>External d\<close> for an exception raised inside an SDK call
  (the chat-platform client, the AI client), with \<open>d\<close> its description \<open>str(e)\<close>.
\<close>

datatype py_exception = OverflowError | IndexError | TypeError | External pystr

text \<open>\<open>xs[:k]\<close>: a negative \<open>k\<close> counts from the end, and the bound is clamped.\<close>

definition py_slice_to :: "'a list \<Rightarrow> int \<Rightarrow> 'a list" where
  "py_slice_to xs k =
     (if k < 0 then take (nat (int (length xs) + k)) xs else take (nat k) xs)"

text \<open>\<open>xs[k:]\<close>, with the same convention.\<close>

definition py_slice_from :: "'a list \<Rightarrow> int \<Rightarrow> 'a list" where
  "py_slice_from xs k =
     (if k < 0 then drop (nat (int (length xs) + k)) xs else drop (nat k) xs)"

text \<open>\<open>s.rfind(c)\<close> for a one-character \<open>c\<close>: the highest index holding \<open>c\<close>, or \<open>-1\<close>.\<close>

fun rfind :: "'a list \<Rightarrow> 'a \<Rightarrow> int" where
  "rfind [] c = - 1"
| "rfind (x # xs) c =
     (let r = rfind xs c in if 0 \<le> r then r + 1 else if x = c then 0 else - 1)"

subsection \<open>The product \<open>max_length * 0.7\<close> in double precision\<close>

text \<open>
  \<open>max_length * 0.7\<close> converts the integer to a double (rounding to 53 significant bits,
  ties to even, \<open>OverflowError\<close> when the result does not fit), multiplies by the double
  nearest to 0.7, which is \<open>6305039478318694 / 2^53\<close>, and rounds the product again.
  Both roundings are roundings of a natural number to 53 significant bits, so the
  product is represented exactly by the integer \<open>2^53\<close> times its value. The comparison
  \<open>cut_point > max_length * 0.7\<close> of an integer with a double is exact in Python.
\<close>

fun bit_length :: "nat \<Rightarrow> nat" where
  "bit_length n = (if n = 0 then 0 else Suc (bit_length (n div 2)))"

declare bit_length.simps [simp del]

definition round53 :: "nat \<Rightarrow> nat" where
  "round53 n =
     (let b = bit_length n in
      if b \<le> 53 then n
      else
        let s = b - 53; q = n div 2 ^ s; r = n mod 2 ^ s; half = 2 ^ (s - 1)
        in (if half < r \<or> (r = half \<and> odd q) then q + 1 else q) * 2 ^ s)"

definition float_of_int :: "int \<Rightarrow> py_exception + int" where
  "float_of_int n =
     (let m = int (round53 (nat \<bar>n\<bar>))
      in if 2 ^ 1024 \<le> m then Inl OverflowError else Inr (sgn n * m))"

definition double_07 :: nat where
  "double_07 = 6305039478318694"

definition mul_07 :: "int \<Rightarrow> py_exception + int" where
  "mul_07 n =
     (case float_of_int n of
        Inl e \<Rightarrow> Inl e
      | Inr f \<Rightarrow> Inr (sgn f * int (round53 (nat \<bar>f\<bar> * double_07))))"

definition gt_mul_07 :: "int \<Rightarrow> int \<Rightarrow> py_exception + bool" where
  "gt_mul_07 c n =
     (case mul_07 n of Inl e \<Rightarrow> Inl e | Inr p \<Rightarrow> Inr (p < c * 2 ^ 53))"

section \<open>config.py\<close>

text \<open>
  An instant (\<open>datetime\<close>) is a number of microseconds, the resolution of \<open>datetime\<close>;
  \<open>timedelta(seconds=w)\<close> is \<open>w * 1000000\<close>.
\<close>

type_synonym instant = int

text \<open>
  \<open>Config.__init__\<close>: the admin identity comes from the environment, the limits are
  constants. The fields that only the bootstrap reads (tokens, webhook, log level) are
  left out.
\<close>

record config =
  admin_id :: int
  max_message_length :: int
  max_image_size :: int
  rate_limit_messages :: int
  rate_limit_window :: int

definition Config :: "int \<Rightarrow> config" where
  "Config admin =
     \<lparr>admin_id = admin, max_message_length = 4096, max_image_size = 20 * 1024 * 1024,
      rate_limit_messages = 10, rate_limit_window = 60\<rparr>"

section \<open>utils.py\<close>

subsection \<open>format_message\<close>

text \<open>
  The character class of the regular expression in \<open>format_message\<close>: eighteen
  punctuation characters and the backslash (code point 92).
\<close>

definition reserved_chars :: pystr where
  "reserved_chars = str ''_*[]()~`>#+-=|{}.!'' @ [92]"

definition reserved :: "nat \<Rightarrow> bool" where
  "reserved c = (c \<in> set reserved_chars)"

definition escape_char :: "nat \<Rightarrow> pystr" where
  "escape_char c = (if reserved c then [92, c] else [c])"

definition escape :: "pystr \<Rightarrow> pystr" where
  "escape text = concat (map escape_char text)"

definition fallback :: pystr where
  "fallback = str ''No response generated.''"

definition truncation_marker :: pystr where
  "truncation_marker = [10, 10] @ str ''... (truncated)''"

definition format_message :: "pystr \<Rightarrow> int \<Rightarrow> py_exception + pystr" where
  "format_message text max_length =
     (if text = [] then Inr fallback
      else
        let text1 = escape text in
        if max_length < int (length text1) then
          let truncated = py_slice_to text1 (max_length - 100);
              last_period = rfind truncated 46;
              last_newline = rfind truncated 10;
              cut_point = max last_period last_newline
          in (case gt_mul_07 cut_point max_length of
                Inl e \<Rightarrow> Inl e
              | Inr True \<Rightarrow> Inr (py_slice_to text1 (cut_point + 1) @ truncation_marker)
              | Inr False \<Rightarrow> Inr (py_slice_to text1 (max_length - 15) @ truncation_marker))
        else Inr text1)"

subsection \<open>is_admin and rate_limit_check\<close>

text \<open>
  The clock reading \<open>datetime.now()\<close> is an argument. The dictionary of request logs
  is updated in place by the source; the model returns it beside the verdict.
\<close>

definition is_admin :: "int \<Rightarrow> int \<Rightarrow> bool" where
  "is_admin user_id admin = (user_id = admin)"

definition rate_limit_check ::
  "int \<Rightarrow> (int \<rightharpoonup> instant list) \<Rightarrow> config \<Rightarrow> instant \<Rightarrow> bool \<times> (int \<rightharpoonup> instant list)" where
  "rate_limit_check user_id user_requests cfg now =
     (let window_start = now - rate_limit_window cfg * 1000000;
          kept = (case user_requests user_id of
                    Some log \<Rightarrow> filter (\<lambda>req_time. window_start < req_time) log
                  | None \<Rightarrow> [])
      in if rate_limit_messages cfg \<le> int (length kept)
         then (False, user_requests(user_id \<mapsto> kept))
         else (True, user_requests(user_id \<mapsto> kept @ [now])))"

section \<open>gemini_handler.py\<close>

text \<open>
  The AI client is an SDK: a call either raises (\<open>Inl d\<close>, with \<open>d\<close> the description of
  the exception) or returns a response. Every method of \<open>GeminiHandler\<close> wraps its call
  in \<open>try ... except Exception\<close> and turns a failure into an ordinary return value.
\<close>

type_synonym bytes = "nat list"

datatype gemini_role = GeminiUser | GeminiModel

datatype ai_request =
  TextRequest pystr
| ChatRequest "(gemini_role \<times> pystr) list"
| VisionRequest bytes pystr
| ImageRequest pystr

record part =
  part_text :: "pystr option"
  inline_data :: "bytes option"

record ai_response =
  response_text :: "pystr option"
  candidates :: "part list option list"

type_synonym ai_client = "ai_request \<Rightarrow> pystr + ai_response"

datatype role = RoleUser | RoleAssistant

record turn =
  role :: role
  content :: pystr
  timestamp :: instant

text \<open>\<open>t or d\<close> for an optional string: \<open>None\<close> and the empty string are both falsy.\<close>

definition text_or :: "pystr option \<Rightarrow> pystr \<Rightarrow> pystr" where
  "text_or t d = (case t of None \<Rightarrow> d | Some s \<Rightarrow> if s = [] then d else s)"

definition no_response_reply :: pystr where
  "no_response_reply = str ''Sorry, I couldn'' @ [39] @ str ''t generate a response.''"

definition generate_response :: "ai_client \<Rightarrow> pystr \<Rightarrow> pystr \<Rightarrow> pystr" where
  "generate_response client prompt context =
     (let full_prompt =
            (if context \<noteq> [] then context @ [10, 10] @ str ''User: '' @ prompt else prompt)
      in case client (TextRequest full_prompt) of
           Inr response \<Rightarrow> text_or (response_text response) no_response_reply
         | Inl d \<Rightarrow> str ''Error: '' @ d)"

definition chat_with_context :: "ai_client \<Rightarrow> turn list \<Rightarrow> pystr" where
  "chat_with_context client messages =
     (let contents =
            map (\<lambda>msg. (if role msg = RoleUser then GeminiUser else GeminiModel, content msg))
              (py_slice_from messages (- 10))
      in case client (ChatRequest contents) of
           Inr response \<Rightarrow> text_or (response_text response) no_response_reply
         | Inl d \<Rightarrow> str ''Error: '' @ d)"

definition default_analysis_prompt :: pystr where
  "default_analysis_prompt =
     str ''Analyze this image in detail. Describe what you see, including objects, ''
     @ str ''people, activities, colors, composition, and any notable aspects. ''
     @ str ''Provide a comprehensive analysis.''"

definition analyze_image :: "ai_client \<Rightarrow> bytes \<Rightarrow> pystr \<Rightarrow> pystr" where
  "analyze_image client image_bytes prompt =
     (let analysis_prompt = (if prompt \<noteq> [] then prompt else default_analysis_prompt)
      in case client (VisionRequest image_bytes analysis_prompt) of
           Inr response \<Rightarrow>
             text_or (response_text response)
               (str ''Sorry, I couldn'' @ [39] @ str ''t analyze this image.'')
         | Inl d \<Rightarrow> str ''Error analyzing image: '' @ d)"

text \<open>The loop of \<open>generate_image\<close> over the parts of the first candidate.\<close>

fun collect_parts :: "part list \<Rightarrow> bytes option \<Rightarrow> pystr \<Rightarrow> bytes option \<times> pystr" where
  "collect_parts [] image_data description = (image_data, description)"
| "collect_parts (p # ps) image_data description =
     (if part_text p \<noteq> None \<and> part_text p \<noteq> Some []
      then collect_parts ps image_data (description @ the (part_text p))
      else if inline_data p \<noteq> None \<and> inline_data p \<noteq> Some []
      then collect_parts ps (inline_data p) description
      else collect_parts ps image_data description)"

definition generate_image :: "ai_client \<Rightarrow> pystr \<Rightarrow> bytes option \<times> pystr" where
  "generate_image client prompt =
     (case client (ImageRequest (str ''Generate an image: '' @ prompt)) of
        Inl d \<Rightarrow> (None, str ''Error generating image: '' @ d)
      | Inr response \<Rightarrow>
          (case candidates response of
             [] \<Rightarrow> (None, str ''No image generated'')
           | c # _ \<Rightarrow>
               (case c of
                  None \<Rightarrow> (None, str ''No image content received'')
                | Some parts \<Rightarrow>
                    if parts = [] then (None, str ''No image content received'')
                    else
                      (case collect_parts parts None [] of
                         (Some image_data, description) \<Rightarrow>
                           (Some image_data,
                            if description \<noteq> [] then description
                            else str ''Image generated successfully'')
                       | (None, description) \<Rightarrow> (None, str ''No image data received'')))))"

text \<open>
  \<open>preprocess_image\<close>: the imaging library either raises or returns the re-encoded
  bytes; on a failure the original bytes are returned.
\<close>

definition preprocess_image :: "(bytes \<Rightarrow> pystr + bytes) \<Rightarrow> bytes \<Rightarrow> bytes" where
  "preprocess_image pil image_bytes =
     (case pil image_bytes of Inr out \<Rightarrow> out | Inl d \<Rightarrow> image_bytes)"

section \<open>The chat platform\<close>

text \<open>
  An inbound \<open>Update\<close> carries the fields the handlers read. \<open>photo\<close> lists the declared
  \<open>file_size\<close> of each offered resolution, which the platform may leave out (\<open>None\<close>).
\<close>

record update =
  effective_user_id :: int
  first_name :: pystr
  message_text :: pystr
  args :: "pystr list"
  photo :: "int option list"
  caption :: "pystr option"
  callback_data :: pystr

datatype chat_action = Typing | UploadPhoto

record bot_stats =
  messages_processed :: int
  images_analyzed :: int
  images_generated :: int
  errors :: int
  uptime_start :: instant

text \<open>
  The long menu and report texts are not spelled out: a \<open>rendering\<close> names the view and
  the data it is rendered from. Short fixed replies are given in full.
\<close>

datatype rendering =
  Welcome pystr bool
| HelpText
| StatusText bot_stats instant instant
| AdminPanel
| DetailedStats bot_stats "int \<rightharpoonup> turn list" instant
| SystemInfo "pystr + pystr"
| Settings
| RestartInfo
| ClearLogsInfo

datatype outbound =
  ReplyText pystr
| ReplyView rendering
| ReplyChatAction chat_action
| ReplyPhoto bytes pystr
| EditText pystr
| EditView rendering
| DeleteMessage
| AnswerCallback

text \<open>
  What the outside world does while one handler runs: the clock readings, whether the
  platform delivers an outbound action (\<open>None\<close>) or raises (\<open>Some d\<close>), the AI client, the
  photo download, the imaging library and the host probe of the system view (\<open>Inl d\<close>:
  the import of the probing library raises; \<open>Inr r\<close>: the outcome of the probe itself).
\<close>

record env =
  now_check :: instant
  now_user_turn :: instant
  now_assistant_turn :: instant
  now_view :: instant
  transport :: "outbound \<Rightarrow> pystr option"
  client :: ai_client
  download :: "pystr + bytes"
  pil :: "bytes \<Rightarrow> pystr + bytes"
  probe :: "pystr + (pystr + pystr)"

definition send :: "env \<Rightarrow> outbound \<Rightarrow> outbound list \<times> py_exception option" where
  "send e a = (case transport e a of None \<Rightarrow> ([a], None) | Some d \<Rightarrow> ([], Some (External d)))"

text \<open>\<open>str(e)\<close> of an exception.\<close>

definition describe :: "py_exception \<Rightarrow> pystr" where
  "describe x =
     (case x of
        OverflowError \<Rightarrow> str ''int too large to convert to float''
      | IndexError \<Rightarrow> str ''list index out of range''
      | TypeError \<Rightarrow>
          [39] @ str ''>'' @ [39] @ str '' not supported between instances of ''
          @ [39] @ str ''NoneType'' @ [39] @ str '' and '' @ [39] @ str ''int'' @ [39]
      | External d \<Rightarrow> d)"

section \<open>admin_controls.py\<close>

record admin_controls =
  ac_admin_id :: int

definition access_denied :: pystr where
  "access_denied = [0x274C] @ str '' Access denied. Admin only.''"

text \<open>The \<open>if ... elif\<close> chain of \<open>handle_callback\<close>, the body of its \<open>try\<close>.\<close>

definition callback_views :: "update \<Rightarrow> env \<Rightarrow> outbound list \<times> py_exception option" where
  "callback_views upd e =
     (let data = callback_data upd in
      if data = str ''admin_back'' then send e (EditView AdminPanel)
      else if data = str ''admin_stats''
        then send e (EditText ([0x1F4CA] @ str '' Use /stats command for detailed statistics.''))
      else if data = str ''admin_users''
        then send e (EditText ([0x1F465] @ str '' User information feature requires bot context.''))
      else if data = str ''admin_system''
        then (case probe e of
                Inl d \<Rightarrow> ([], Some (External d))
              | Inr r \<Rightarrow> send e (EditView (SystemInfo r)))
      else if data = str ''admin_settings'' then send e (EditView Settings)
      else if data = str ''admin_restart'' then send e (EditView RestartInfo)
      else if data = str ''admin_clear_logs'' then send e (EditView ClearLogsInfo)
      else if data = str ''admin_close''
        then send e (EditText ([0x1F527] @ str '' Admin panel closed.''))
      else ([], None))"

definition handle_callback ::
  "admin_controls \<Rightarrow> update \<Rightarrow> env \<Rightarrow> outbound list \<times> py_exception option" where
  "handle_callback self upd e =
     (case transport e AnswerCallback of
        Some d \<Rightarrow> ([], Some (External d))
      | None \<Rightarrow>
          if effective_user_id upd \<noteq> ac_admin_id self
          then (case send e (EditText access_denied) of
                  (out, exc) \<Rightarrow> (AnswerCallback # out, exc))
          else
            (case callback_views upd e of
               (out, None) \<Rightarrow> (AnswerCallback # out, None)
             | (out, Some x) \<Rightarrow>
                 (case send e (EditText ([0x274C] @ str '' Error: '' @ describe x)) of
                    (out1, exc) \<Rightarrow> (AnswerCallback # out @ out1, exc))))"

section \<open>bot.py\<close>

record telegram_bot =
  config :: config
  admin :: admin_controls
  start_time :: instant
  user_contexts :: "int \<rightharpoonup> turn list"
  user_requests :: "int \<rightharpoonup> instant list"
  stats :: bot_stats

text \<open>\<open>TelegramBot.__init__\<close> run at the instant \<open>now\<close>.\<close>

definition TelegramBot :: "config \<Rightarrow> instant \<Rightarrow> telegram_bot" where
  "TelegramBot cfg now =
     \<lparr>config = cfg, admin = \<lparr>ac_admin_id = admin_id cfg\<rparr>, start_time = now,
      user_contexts = Map.empty, user_requests = Map.empty,
      stats = \<lparr>messages_processed = 0, images_analyzed = 0, images_generated = 0,
               errors = 0, uptime_start = now\<rparr>\<rparr>"

text \<open>
  \<open>user_contexts\<close> is a \<open>defaultdict(list)\<close>: reading a missing key gives the empty
  history.
\<close>

definition history :: "telegram_bot \<Rightarrow> int \<Rightarrow> turn list" where
  "history self user_id = (case user_contexts self user_id of None \<Rightarrow> [] | Some h \<Rightarrow> h)"

type_synonym outcome = "telegram_bot \<times> outbound list \<times> py_exception option"

definition rate_limit_warning :: pystr where
  "rate_limit_warning =
     [0x26A0, 0xFE0F] @ str '' You'' @ [39]
     @ str ''re sending requests too quickly. Please wait a moment.''"

definition count_message :: "telegram_bot \<Rightarrow> telegram_bot" where
  "count_message self =
     self\<lparr>stats := (stats self)\<lparr>messages_processed := messages_processed (stats self) + 1\<rparr>\<rparr>"

definition count_analysis :: "telegram_bot \<Rightarrow> telegram_bot" where
  "count_analysis self =
     self\<lparr>stats := (stats self)\<lparr>images_analyzed := images_analyzed (stats self) + 1\<rparr>\<rparr>"

definition count_generation :: "telegram_bot \<Rightarrow> telegram_bot" where
  "count_generation self =
     self\<lparr>stats := (stats self)\<lparr>images_generated := images_generated (stats self) + 1\<rparr>\<rparr>"

definition count_error :: "telegram_bot \<Rightarrow> telegram_bot" where
  "count_error self =
     self\<lparr>stats := (stats self)\<lparr>errors := errors (stats self) + 1\<rparr>\<rparr>"

definition start_command :: "telegram_bot \<Rightarrow> update \<Rightarrow> env \<Rightarrow> outcome" where
  "start_command self upd e =
     (case send e (ReplyView (Welcome (first_name upd)
                     (is_admin (effective_user_id upd) (admin_id (config self))))) of
        (out, exc) \<Rightarrow> (self, out, exc))"

definition help_command :: "telegram_bot \<Rightarrow> update \<Rightarrow> env \<Rightarrow> outcome" where
  "help_command self upd e = (case send e (ReplyView HelpText) of (out, exc) \<Rightarrow> (self, out, exc))"

definition status_command :: "telegram_bot \<Rightarrow> update \<Rightarrow> env \<Rightarrow> outcome" where
  "status_command self upd e =
     (case send e (ReplyView (StatusText (stats self) (start_time self) (now_view e))) of
        (out, exc) \<Rightarrow> (self, out, exc))"

definition clear_command :: "telegram_bot \<Rightarrow> update \<Rightarrow> env \<Rightarrow> outcome" where
  "clear_command self upd e =
     (let user_id = effective_user_id upd;
          self1 = self\<lparr>user_contexts := (user_contexts self)(user_id \<mapsto> [])\<rparr>
      in case send e (ReplyText ([0x1F5D1, 0xFE0F]
                        @ str '' Conversation context cleared! Starting fresh.'')) of
           (out, exc) \<Rightarrow> (self1, out, exc))"

definition admin_command :: "telegram_bot \<Rightarrow> update \<Rightarrow> env \<Rightarrow> outcome" where
  "admin_command self upd e =
     (if \<not> is_admin (effective_user_id upd) (admin_id (config self))
      then (case send e (ReplyText access_denied) of (out, exc) \<Rightarrow> (self, out, exc))
      else (case send e (ReplyView AdminPanel) of (out, exc) \<Rightarrow> (self, out, exc)))"

definition stats_command :: "telegram_bot \<Rightarrow> update \<Rightarrow> env \<Rightarrow> outcome" where
  "stats_command self upd e =
     (if \<not> is_admin (effective_user_id upd) (admin_id (config self))
      then (case send e (ReplyText access_denied) of (out, exc) \<Rightarrow> (self, out, exc))
      else
        (case send e (ReplyView (DetailedStats (stats self) (user_contexts self) (now_view e))) of
           (out, exc) \<Rightarrow> (self, out, exc)))"


subsection \<open>handle_message\<close>

text \<open>
  The body of the \<open>try\<close> block up to the reply: the mutations of the history stay when a
  later statement raises, so the updated bot is returned together with the exception.
\<close>

definition message_turns :: "telegram_bot \<Rightarrow> update \<Rightarrow> env \<Rightarrow> telegram_bot \<times> pystr" where
  "message_turns self upd e =
     (let user_id = effective_user_id upd;
          appended = history self user_id
            @ [\<lparr>role = RoleUser, content = message_text upd, timestamp = now_user_turn e\<rparr>];
          recent = py_slice_from appended (- 20);
          response =
            (if 1 < length recent then chat_with_context (client e) recent
             else generate_response (client e) (message_text upd) []);
          answered = recent
            @ [\<lparr>role = RoleAssistant, content = response, timestamp = now_assistant_turn e\<rparr>]
      in (self\<lparr>user_contexts := (user_contexts self)(user_id \<mapsto> answered)\<rparr>, response))"

definition handle_message :: "telegram_bot \<Rightarrow> update \<Rightarrow> env \<Rightarrow> outcome" where
  "handle_message self upd e =
     (case rate_limit_check (effective_user_id upd) (user_requests self) (config self)
             (now_check e) of
        (False, requests) \<Rightarrow>
          (case send e (ReplyText rate_limit_warning) of
             (out, exc) \<Rightarrow> (self\<lparr>user_requests := requests\<rparr>, out, exc))
      | (True, requests) \<Rightarrow>
          (case transport e (ReplyChatAction Typing) of
             Some d \<Rightarrow> (self\<lparr>user_requests := requests\<rparr>, [], Some (External d))
           | None \<Rightarrow>
               (case message_turns (self\<lparr>user_requests := requests\<rparr>) upd e of
                  (self1, response) \<Rightarrow>
                    (case (case format_message response (max_message_length (config self)) of
                             Inl x \<Rightarrow> Inl x
                           | Inr formatted \<Rightarrow>
                               (case transport e (ReplyText formatted) of
                                  Some d \<Rightarrow> Inl (External d)
                                | None \<Rightarrow> Inr formatted)) of
                       Inr formatted \<Rightarrow>
                         (count_message self1,
                          [ReplyChatAction Typing, ReplyText formatted], None)
                     | Inl x \<Rightarrow>
                         (case transport e (ReplyText ([0x274C]
                                 @ str '' Sorry, I encountered an error: '' @ describe x)) of
                            Some d \<Rightarrow> (self1, [ReplyChatAction Typing], Some (External d))
                          | None \<Rightarrow>
                              (count_error self1,
                               [ReplyChatAction Typing,
                                ReplyText ([0x274C] @ str '' Sorry, I encountered an error: ''
                                  @ describe x)], None))))))"

subsection \<open>generate_command\<close>

text \<open>\<open>" ".join(args)\<close>\<close>

fun join_space :: "pystr list \<Rightarrow> pystr" where
  "join_space [] = []"
| "join_space [x] = x"
| "join_space (x # y # ys) = x @ [32] @ join_space (y # ys)"

definition empty_prompt_help :: pystr where
  "empty_prompt_help =
     str ''Please provide a prompt for image generation.'' @ [10]
     @ str ''Example: `/generate a beautiful sunset over mountains`''"

definition generating_notice :: pystr where
  "generating_notice = [0x1F3A8] @ str '' Generating your image, please wait...''"

text \<open>The body of the \<open>try\<close> block of \<open>generate_command\<close>.\<close>

definition generate_try :: "telegram_bot \<Rightarrow> pystr \<Rightarrow> env \<Rightarrow> outcome" where
  "generate_try self prompt e =
     (case generate_image (client e) prompt of
        (image_data, description) \<Rightarrow>
          if image_data \<noteq> None \<and> image_data \<noteq> Some []
          then
            (let reply = ReplyPhoto (the image_data)
                   ([0x1F3A8] @ str '' **Generated Image**'' @ [10, 10] @ str ''**Prompt:** ''
                    @ prompt @ [10, 10] @ description)
             in case transport e reply of
                  Some d \<Rightarrow> (self, [], Some (External d))
                | None \<Rightarrow>
                    (case transport e DeleteMessage of
                       Some d \<Rightarrow> (count_generation self, [reply], Some (External d))
                     | None \<Rightarrow> (count_generation self, [reply, DeleteMessage], None)))
          else
            (let note = EditText ([0x274C] @ str '' Failed to generate image: '' @ description)
             in case transport e note of
                  Some d \<Rightarrow> (self, [], Some (External d))
                | None \<Rightarrow> (count_error self, [note], None)))"

definition generate_command :: "telegram_bot \<Rightarrow> update \<Rightarrow> env \<Rightarrow> outcome" where
  "generate_command self upd e =
     (case rate_limit_check (effective_user_id upd) (user_requests self) (config self)
             (now_check e) of
        (False, requests) \<Rightarrow>
          (case send e (ReplyText rate_limit_warning) of
             (out, exc) \<Rightarrow> (self\<lparr>user_requests := requests\<rparr>, out, exc))
      | (True, requests) \<Rightarrow>
          (let self1 = self\<lparr>user_requests := requests\<rparr>;
               prompt = (if args upd \<noteq> [] then join_space (args upd) else [])
           in if prompt = []
              then (case send e (ReplyText empty_prompt_help) of
                      (out, exc) \<Rightarrow> (self1, out, exc))
              else
                (case transport e (ReplyChatAction UploadPhoto) of
                   Some d \<Rightarrow> (self1, [], Some (External d))
                 | None \<Rightarrow>
                     (case transport e (ReplyText generating_notice) of
                        Some d \<Rightarrow> (self1, [ReplyChatAction UploadPhoto], Some (External d))
                      | None \<Rightarrow>
                          (case generate_try self1 prompt e of
                             (self2, out, None) \<Rightarrow>
                               (self2,
                                [ReplyChatAction UploadPhoto, ReplyText generating_notice] @ out,
                                None)
                           | (self2, out, Some x) \<Rightarrow>
                               (let note = EditText ([0x274C]
                                      @ str '' Error generating image: '' @ describe x)
                                in case transport e note of
                                     Some d \<Rightarrow>
                                       (self2,
                                        [ReplyChatAction UploadPhoto,
                                         ReplyText generating_notice] @ out,
                                        Some (External d))
                                   | None \<Rightarrow>
                                       (count_error self2,
                                        [ReplyChatAction UploadPhoto,
                                         ReplyText generating_notice] @ out @ [note],
                                        None)))))))"

subsection \<open>handle_photo\<close>

definition analyzing_notice :: pystr where
  "analyzing_notice = [0x1F50D] @ str '' Analyzing your image, please wait...''"

definition image_too_large :: pystr where
  "image_too_large = [0x274C] @ str '' Image is too large. Maximum size is 20MB.''"

text \<open>\<open>xs[-1]\<close>\<close>

definition py_last :: "'a list \<Rightarrow> py_exception + 'a" where
  "py_last xs = (if xs = [] then Inl IndexError else Inr (last xs))"

text \<open>
  The body of the \<open>try\<close> block of \<open>handle_photo\<close>. Comparing a missing \<open>file_size\<close> with
  the limit raises \<open>TypeError\<close>.
\<close>

definition photo_try :: "telegram_bot \<Rightarrow> update \<Rightarrow> env \<Rightarrow> outcome" where
  "photo_try self upd e =
     (case py_last (photo upd) of
        Inl x \<Rightarrow> (self, [], Some x)
      | Inr None \<Rightarrow> (self, [], Some TypeError)
      | Inr (Some file_size) \<Rightarrow>
          if max_image_size (config self) < file_size
          then (case send e (EditText image_too_large) of (out, exc) \<Rightarrow> (self, out, exc))
          else
            (case download e of
               Inl d \<Rightarrow> (self, [], Some (External d))
             | Inr image_bytes \<Rightarrow>
                 (let processed_image = preprocess_image (pil e) image_bytes;
                      cap = (case caption upd of None \<Rightarrow> [] | Some c \<Rightarrow> c);
                      analysis_prompt =
                        (if cap \<noteq> []
                         then str ''User caption: '' @ cap @ [10, 10]
                              @ str ''Please analyze this image.''
                         else []);
                      analysis = analyze_image (client e) processed_image analysis_prompt;
                      analysis_text0 =
                        [0x1F50D] @ str '' **Image Analysis**'' @ [10, 10] @ analysis;
                      analysis_text =
                        (if cap \<noteq> []
                         then [0x1F4DD] @ str '' **Your caption:** '' @ cap @ [10, 10]
                              @ analysis_text0
                         else analysis_text0)
                  in case format_message analysis_text (max_message_length (config self)) of
                       Inl x \<Rightarrow> (self, [], Some x)
                     | Inr formatted \<Rightarrow>
                         (case transport e (EditText formatted) of
                            Some d \<Rightarrow> (self, [], Some (External d))
                          | None \<Rightarrow> (count_analysis self, [EditText formatted], None)))))"

definition handle_photo :: "telegram_bot \<Rightarrow> update \<Rightarrow> env \<Rightarrow> outcome" where
  "handle_photo self upd e =
     (case rate_limit_check (effective_user_id upd) (user_requests self) (config self)
             (now_check e) of
        (False, requests) \<Rightarrow>
          (case send e (ReplyText rate_limit_warning) of
             (out, exc) \<Rightarrow> (self\<lparr>user_requests := requests\<rparr>, out, exc))
      | (True, requests) \<Rightarrow>
          (let self1 = self\<lparr>user_requests := requests\<rparr> in
           case transport e (ReplyChatAction Typing) of
             Some d \<Rightarrow> (self1, [], Some (External d))
           | None \<Rightarrow>
               (case transport e (ReplyText analyzing_notice) of
                  Some d \<Rightarrow> (self1, [ReplyChatAction Typing], Some (External d))
                | None \<Rightarrow>
                    (case photo_try self1 upd e of
                       (self2, out, None) \<Rightarrow>
                         (self2, [ReplyChatAction Typing, ReplyText analyzing_notice] @ out, None)
                     | (self2, out, Some x) \<Rightarrow>
                         (let note = EditText ([0x274C]
                                @ str '' Error analyzing image: '' @ describe x)
                          in case transport e note of
                               Some d \<Rightarrow>
                                 (self2,
                                  [ReplyChatAction Typing, ReplyText analyzing_notice] @ out,
                                  Some (External d))
                             | None \<Rightarrow>
                                 (count_error self2,
                                  [ReplyChatAction Typing, ReplyText analyzing_notice]
                                  @ out @ [note],
                                  None))))))"

subsection \<open>setup_handlers\<close>

text \<open>The handlers that \<open>setup_handlers\<close> registers, and the routing of one event.\<close>

datatype handler =
  StartCommand | HelpCommand | GenerateCommand | StatusCommand | ClearCommand
| AdminCommand | StatsCommand | TextMessage | PhotoMessage | CallbackQuery

definition dispatch :: "handler \<Rightarrow> telegram_bot \<Rightarrow> update \<Rightarrow> env \<Rightarrow> outcome" where
  "dispatch h self upd e =
     (case h of
        StartCommand \<Rightarrow> start_command self upd e
      | HelpCommand \<Rightarrow> help_command self upd e
      | GenerateCommand \<Rightarrow> generate_command self upd e
      | StatusCommand \<Rightarrow> status_command self upd e
      | ClearCommand \<Rightarrow> clear_command self upd e
      | AdminCommand \<Rightarrow> admin_command self upd e
      | StatsCommand \<Rightarrow> stats_command self upd e
      | TextMessage \<Rightarrow> handle_message self upd e
      | PhotoMessage \<Rightarrow> handle_photo self upd e
      | CallbackQuery \<Rightarrow>
          (case handle_callback (admin self) upd e of (out, exc) \<Rightarrow> (self, out, exc)))"

section \<open>Notions used to state the properties\<close>

text \<open>
  A string is well escaped when it splits into units that are either one character
  outside the reserved class or a backslash followed by one reserved character: every
  reserved character then stands right after its escape marker, and no marker stands
  alone.
\<close>

fun escaped_ok :: "pystr \<Rightarrow> bool" where
  "escaped_ok [] = True"
| "escaped_ok [c] = (\<not> reserved c)"
| "escaped_ok (c # d # cs) =
     (if c = 92 then reserved d \<and> escaped_ok cs else \<not> reserved c \<and> escaped_ok (d # cs))"

text \<open>The request log of a user; a missing key is the empty log.\<close>

definition request_log :: "(int \<rightharpoonup> instant list) \<Rightarrow> int \<Rightarrow> instant list" where
  "request_log requests user_id = (case requests user_id of None \<Rightarrow> [] | Some log \<Rightarrow> log)"

text \<open>Successive calls of \<open>rate_limit_check\<close> for one user at the given clock readings.\<close>

fun rate_limit_calls ::
  "int \<Rightarrow> (int \<rightharpoonup> instant list) \<Rightarrow> config \<Rightarrow> instant list \<Rightarrow> bool list \<times> (int \<rightharpoonup> instant list)" where
  "rate_limit_calls user_id requests cfg [] = ([], requests)"
| "rate_limit_calls user_id requests cfg (now # later) =
     (case rate_limit_check user_id requests cfg now of
        (verdict, requests1) \<Rightarrow>
          (case rate_limit_calls user_id requests1 cfg later of
             (verdicts, requests2) \<Rightarrow> (verdict # verdicts, requests2)))"

text \<open>
  The rate limiter as the specification words it, for comparison with the code: the
  entries \<^emph>\<open>older than\<close> \<open>now - window\<close> are discarded, so an entry exactly one window old
  is kept.
\<close>

definition rate_limit_check_as_claimed ::
  "int \<Rightarrow> (int \<rightharpoonup> instant list) \<Rightarrow> config \<Rightarrow> instant \<Rightarrow> bool \<times> (int \<rightharpoonup> instant list)" where
  "rate_limit_check_as_claimed user_id requests cfg now =
     (let window_start = now - rate_limit_window cfg * 1000000;
          kept = filter (\<lambda>req_time. \<not> req_time < window_start) (request_log requests user_id)
      in if rate_limit_messages cfg \<le> int (length kept)
         then (False, requests(user_id \<mapsto> kept))
         else (True, requests(user_id \<mapsto> kept @ [now])))"

text \<open>No counter of the second record is below the first, and the start mark is the same.\<close>

definition counters_le :: "bot_stats \<Rightarrow> bot_stats \<Rightarrow> bool" where
  "counters_le a b =
     (messages_processed a \<le> messages_processed b \<and> images_analyzed a \<le> images_analyzed b
      \<and> images_generated a \<le> images_generated b \<and> errors a \<le> errors b
      \<and> uptime_start a = uptime_start b)"

text \<open>
  Concrete inputs for the examples: a user who is not the administrator, an AI client
  whose every call raises, a platform that delivers every action, and the bot right
  after construction.
\<close>

definition example_update :: update where
  "example_update =
     \<lparr>effective_user_id = 7, first_name = str ''Ann'', message_text = str ''hello'',
      args = [], photo = [Some 1000, Some 30000000], caption = None,
      callback_data = str ''admin_settings''\<rparr>"

definition failing_client :: ai_client where
  "failing_client = (\<lambda>request. Inl (str ''quota exceeded''))"

definition example_env :: env where
  "example_env =
     \<lparr>now_check = 0, now_user_turn = 1, now_assistant_turn = 2, now_view = 3,
      transport = (\<lambda>action. None), client = failing_client, download = Inr [],
      pil = (\<lambda>image. Inr image), probe = Inr (Inr [])\<rparr>"

definition example_bot :: telegram_bot where
  "example_bot = TelegramBot (Config 1) 0"


definition example_turns :: "turn list" where
  "example_turns = replicate 20 \<lparr>role = RoleUser, content = str ''hi'', timestamp = 0\<rparr>"

section \<open>Properties\<close>

subsection \<open>The double-precision threshold\<close>

lemma bit_length_le: "n < 2 ^ k \<Longrightarrow> bit_length n \<le> k"
proof (induction k arbitrary: n)
  case 0
  then show ?case by (simp add: bit_length.simps)
next
  case (Suc k)
  show ?case
  proof (cases "n = 0")
    case True
    then show ?thesis by (simp add: bit_length.simps)
  next
    case False
    from Suc.prems have "n div 2 < 2 ^ k" by simp
    then have "bit_length (n div 2) \<le> k" by (rule Suc.IH)
    with False show ?thesis by (subst bit_length.simps) simp
  qed
qed

lemma round53_small: "n < 2 ^ 53 \<Longrightarrow> round53 n = n"
  using bit_length_le [of n 53] by (simp add: round53_def Let_def)

lemma float_of_int_small: "\<bar>n\<bar> < 2 ^ 53 \<Longrightarrow> float_of_int n = Inr n"
proof -
  assume a: "\<bar>n\<bar> < 2 ^ 53"
  then have "nat \<bar>n\<bar> < 2 ^ 53" by (simp add: nat_less_iff)
  then have r: "round53 (nat \<bar>n\<bar>) = nat \<bar>n\<bar>" by (rule round53_small)
  have "\<bar>n\<bar> < (2::int) ^ 1024" using a by (rule less_trans) simp
  then show ?thesis by (simp add: float_of_int_def r Let_def mult_sgn_abs)
qed

lemma mul_07_nonneg:
  assumes "0 \<le> n" "n < 2 ^ 53"
  shows "\<exists>p. mul_07 n = Inr p \<and> 0 \<le> p"
proof -
  have "float_of_int n = Inr n" using assms by (intro float_of_int_small) simp
  then show ?thesis using assms(1) by (simp add: mul_07_def sgn_if)
qed

lemma gt_mul_07_negative:
  assumes "0 \<le> n" "n < 2 ^ 53" "c < 0"
  shows "gt_mul_07 c n = Inr False"
proof -
  obtain p where p: "mul_07 n = Inr p" "0 \<le> p" using mul_07_nonneg [OF assms(1,2)] by blast
  have "c * 2 ^ 53 < 0" using assms(3) by (simp add: mult_less_0_iff)
  with p show ?thesis by (simp add: gt_mul_07_def)
qed

lemma mul_07_defined: "\<bar>n\<bar> < 2 ^ 53 \<Longrightarrow> \<exists>p. mul_07 n = Inr p"
  by (simp add: mul_07_def float_of_int_small)

lemma gt_mul_07_defined: "\<bar>n\<bar> < 2 ^ 53 \<Longrightarrow> \<exists>b. gt_mul_07 c n = Inr b"
  using mul_07_defined [of n] by (auto simp: gt_mul_07_def)

lemma bit_length_lower: "n \<noteq> 0 \<Longrightarrow> 2 ^ (bit_length n - 1) \<le> n"
proof (induction n rule: bit_length.induct)
  case (1 n)
  show ?case
  proof (cases "n div 2 = 0")
    case True
    with "1.prems" have "n = 1" by (simp add: div_eq_0_iff) 
    then show ?thesis by (simp add: bit_length.simps)
  next
    case False
    then have ih: "2 ^ (bit_length (n div 2) - 1) \<le> n div 2" using "1.IH" "1.prems" by simp
    have pos: "0 < bit_length (n div 2)" using False by (subst bit_length.simps) simp
    have "bit_length n = Suc (bit_length (n div 2))" using "1.prems" by (subst bit_length.simps) simp
    then have "bit_length n - 1 = Suc (bit_length (n div 2) - 1)" using pos by simp
    then have "(2::nat) ^ (bit_length n - 1) = 2 * 2 ^ (bit_length (n div 2) - 1)" by simp
    also have "\<dots> \<le> 2 * (n div 2)" using ih by simp
    also have "\<dots> \<le> n" by simp
    finally show ?thesis .
  qed
qed

lemma round53_error: "2 ^ 53 * \<bar>int (round53 n) - int n\<bar> \<le> int n"
proof (cases "bit_length n \<le> 53")
  case True
  then show ?thesis by (simp add: round53_def)
next
  case False
  define s where "s = bit_length n - 53"
  define q where "q = n div 2 ^ s"
  define r where "r = n mod 2 ^ s"
  define h :: nat where "h = 2 ^ (s - 1)"
  have spos: "0 < s" using False by (simp add: s_def)
  then have two: "(2::nat) ^ s = 2 * h" by (cases s) (simp_all add: h_def)
  have "n = q * 2 ^ s + r" unfolding q_def r_def by (simp only: div_mult_mod_eq)
  then have n_eq: "n = q * (2 * h) + r" by (simp only: two)
  have "r < 2 ^ s" unfolding r_def by simp
  then have r_lt: "r < 2 * h" by (simp only: two)
  have "bit_length 0 = 0" by (simp add: bit_length.simps)
  with False have "n \<noteq> 0" by (cases "n = 0") simp_all
  then have "2 ^ (bit_length n - 1) \<le> n" by (rule bit_length_lower)
  moreover have "bit_length n - 1 = 53 + (s - 1)" using False spos by (simp add: s_def)
  ultimately have big: "2 ^ 53 * h \<le> n" by (simp add: h_def power_add)
  have "round53 n = (if h < r \<or> (r = h \<and> odd q) then q + 1 else q) * 2 ^ s"
    using False unfolding q_def r_def h_def s_def round53_def Let_def by simp
  then have R: "round53 n = (if h < r \<or> (r = h \<and> odd q) then q + 1 else q) * (2 * h)"
    by (simp only: two)
  have "\<bar>int (round53 n) - int n\<bar> \<le> int h"
  proof (cases "h < r \<or> (r = h \<and> odd q)")
    case True
    then have "round53 n = (q + 1) * (2 * h)" by (simp only: R if_True)
    then have "round53 n = q * (2 * h) + 2 * h" by simp
    moreover from True have "h \<le> r" by auto
    ultimately show ?thesis using n_eq r_lt by simp
  next
    case False
    then have "round53 n = q * (2 * h)" by (simp only: R if_False)
    moreover from False have "r \<le> h" by auto
    ultimately show ?thesis using n_eq by simp
  qed
  then have "2 ^ 53 * \<bar>int (round53 n) - int n\<bar> \<le> 2 ^ 53 * int h" by simp
  also have "\<dots> \<le> int n" using big by (metis of_nat_le_iff of_nat_mult of_nat_numeral of_nat_power)
  finally show ?thesis .
qed

lemma mul_07_small:
  assumes "0 \<le> L" "L < 2 ^ 53"
  shows "mul_07 L = Inr (int (round53 (nat L * double_07)))"
proof -
  have f: "float_of_int L = Inr L" using assms by (intro float_of_int_small) simp
  show ?thesis
  proof (cases "L = 0")
    case True
    then show ?thesis using f by (simp add: mul_07_def round53_small)
  next
    case False
    with assms(1) have "sgn L = 1" "\<bar>L\<bar> = L" by simp_all
    then show ?thesis by (simp add: mul_07_def f)
  qed
qed

lemma gt_mul_07_threshold:
  assumes "0 \<le> L" "L < 2 ^ 49"
  shows "7 * L < 10 * c \<Longrightarrow> gt_mul_07 c L = Inr True"
    and "10 * c < 7 * L \<Longrightarrow> gt_mul_07 c L = Inr False"
proof -
  define N where "N = nat L * double_07"
  define R where "R = int (round53 N)"
  define E where "E = \<bar>R - int N\<bar>"
  have L53: "L < 2 ^ 53" using assms(2) by (rule less_trans) simp
  have m: "mul_07 L = Inr R" using mul_07_small [OF assms(1) L53] by (simp add: R_def N_def)
  have N10: "10 * int N = L * 63050394783186940" using assms(1) by (simp add: N_def double_07_def)
  have "2 ^ 53 * E \<le> int N" unfolding E_def R_def by (rule round53_error)
  then have err: "9007199254740992 * E \<le> int N" by simp
  have E0: "0 \<le> E" "R \<le> int N + E" "int N - E \<le> R" by (simp_all add: E_def)
  have Lb: "L < 562949953421312" using assms(2) by simp
  have g: "gt_mul_07 c L = Inr (R < c * 9007199254740992)" by (simp add: gt_mul_07_def m)
  {
    assume "7 * L < 10 * c"
    then have "R < c * 9007199254740992" using N10 err E0 Lb assms(1) by linarith
    then show "gt_mul_07 c L = Inr True" by (simp add: g)
  }
  {
    assume "10 * c < 7 * L"
    then have "\<not> R < c * 9007199254740992" using N10 err E0 Lb assms(1) by linarith
    then show "gt_mul_07 c L = Inr False" by (simp add: g)
  }
qed

lemma gt_mul_07_exact:
  assumes "0 \<le> L" "L < 2 ^ 49" "\<not> 10 dvd L"
  shows "gt_mul_07 c L = Inr (7 * L < 10 * c)"
proof (cases "7 * L < 10 * c")
  case True
  then show ?thesis using gt_mul_07_threshold(1) [OF assms(1,2)] by simp
next
  case False
  have "10 * c \<noteq> 7 * L" using assms(3) by presburger
  with False have "10 * c < 7 * L" by simp
  then show ?thesis using gt_mul_07_threshold(2) [OF assms(1,2)] False by simp
qed

lemma bit_length_upper: "n < 2 ^ bit_length n"
proof (induction n rule: bit_length.induct)
  case (1 n)
  show ?case
  proof (cases "n = 0")
    case True
    then show ?thesis by simp
  next
    case False
    then have "n div 2 < 2 ^ bit_length (n div 2)" by (rule "1.IH")
    then have "n < 2 * 2 ^ bit_length (n div 2)" by simp
    moreover have "bit_length n = Suc (bit_length (n div 2))"
      using False by (subst bit_length.simps) simp
    ultimately show ?thesis by simp
  qed
qed

lemma bit_length_eq:
  assumes "2 ^ k \<le> n" "n < 2 ^ Suc k"
  shows "bit_length n = Suc k"
proof -
  have "bit_length n \<le> Suc k" using assms(2) by (rule bit_length_le)
  moreover have "(2::nat) ^ k < 2 ^ bit_length n"
    using assms(1) bit_length_upper [of n] by (rule le_less_trans)
  then have "k < bit_length n" by simp
  ultimately show ?thesis by simp
qed

lemma gt_mul_07_4096: "gt_mul_07 p 4096 = Inr (2868 \<le> p)"
proof -
  have "gt_mul_07 p 4096 = Inr (7 * 4096 < 10 * p)"
    by (rule gt_mul_07_exact) simp_all
  moreover have "(7 * 4096 < 10 * p) = (2868 \<le> p)" by presburger
  ultimately show ?thesis by simp
qed

text \<open>
  The threshold is the double-precision product, not the rational \<open>7/10\<close>: at
  \<open>max_length = 5200\<close> the product is rounded below 3640, so the index 3640, which is
  exactly 70% of 5200, passes the test.
\<close>

lemma gt_mul_07_rounding_example:
  "gt_mul_07 3640 5200 = Inr True \<and> 10 * (3640::int) = 7 * 5200"
proof -
  have b: "bit_length 32786205287257208800 = Suc 64"
    by (rule bit_length_eq) simp_all
  have "round53 32786205287257208800 = 32786205287257206784"
    by (simp add: round53_def b Let_def)
  then have "mul_07 5200 = Inr 32786205287257206784"
    using mul_07_small [of 5200] by (simp add: double_07_def)
  then show ?thesis by (simp add: gt_mul_07_def)
qed

subsection \<open>Slices, rfind and escaping\<close>

lemma rfind_absent: "c \<notin> set xs \<Longrightarrow> rfind xs c = - 1"
  by (induction xs) (auto simp: Let_def)

lemma rfind_lower: "- 1 \<le> rfind xs c"
  by (induction xs) (auto simp: Let_def)

lemma rfind_upper: "rfind xs c < int (length xs)"
  by (induction xs) (auto simp: Let_def)

lemma rfind_nth: "0 \<le> rfind xs c \<Longrightarrow> xs ! nat (rfind xs c) = c"
proof (induction xs)
  case Nil
  then show ?case by simp
next
  case (Cons x xs)
  show ?case
  proof (cases "0 \<le> rfind xs c")
    case True
    then have "nat (rfind xs c + 1) = Suc (nat (rfind xs c))" by simp
    with True Cons.IH show ?thesis by (simp add: Let_def)
  next
    case False
    with Cons.prems show ?thesis by (simp add: Let_def split: if_splits)
  qed
qed

lemma rfind_after: "rfind xs c < int j \<Longrightarrow> j < length xs \<Longrightarrow> xs ! j \<noteq> c"
proof (induction xs arbitrary: j)
  case Nil
  then show ?case by simp
next
  case (Cons x xs)
  show ?case
  proof (cases j)
    case 0
    with Cons.prems show ?thesis using rfind_lower [of xs c] by (auto simp: Let_def split: if_splits)
  next
    case (Suc j1)
    have "rfind xs c < int j1"
      using Cons.prems(1) Suc rfind_lower [of xs c] by (auto simp: Let_def split: if_splits)
    then have "xs ! j1 \<noteq> c" using Cons.prems(2) Suc by (intro Cons.IH) simp_all
    with Suc show ?thesis by simp
  qed
qed

lemma rfind_le:
  assumes "\<forall>j. p < j \<and> j < length xs \<longrightarrow> xs ! j \<noteq> c"
  shows "rfind xs c \<le> int p"
proof (rule ccontr)
  assume "\<not> rfind xs c \<le> int p"
  then have gt: "int p < rfind xs c" by simp
  then have "0 \<le> rfind xs c" by simp
  then have "xs ! nat (rfind xs c) = c" by (rule rfind_nth)
  moreover have "p < nat (rfind xs c)" "nat (rfind xs c) < length xs"
    using gt rfind_upper [of xs c] by simp_all
  ultimately show False using assms by blast
qed

lemma rfind_eq:
  assumes "p < length xs" "xs ! p = c" "\<forall>j. p < j \<and> j < length xs \<longrightarrow> xs ! j \<noteq> c"
  shows "rfind xs c = int p"
proof -
  have "rfind xs c \<le> int p" using assms(3) by (rule rfind_le)
  moreover have "\<not> rfind xs c < int p" using rfind_after [of xs c p] assms(1,2) by blast
  ultimately show ?thesis by simp
qed

lemma cut_point_none:
  assumes "\<forall>i<length w. w ! i \<noteq> 46 \<and> w ! i \<noteq> (10::nat)"
  shows "max (rfind w 46) (rfind w 10) = - 1"
proof -
  have "46 \<notin> set w" "10 \<notin> set w" using assms by (auto simp: in_set_conv_nth)
  then show ?thesis by (simp add: rfind_absent)
qed

lemma cut_point_last:
  assumes "p < length w" "w ! p = 46 \<or> w ! p = (10::nat)"
    and "\<forall>j. p < j \<and> j < length w \<longrightarrow> w ! j \<noteq> 46 \<and> w ! j \<noteq> 10"
  shows "max (rfind w 46) (rfind w 10) = int p"
proof -
  have a: "rfind w 46 \<le> int p" using assms(3) by (intro rfind_le) blast
  have b: "rfind w 10 \<le> int p" using assms(3) by (intro rfind_le) blast
  from assms(2) show ?thesis
  proof
    assume "w ! p = 46"
    then have "rfind w 46 = int p" using assms(1,3) by (intro rfind_eq) auto
    with b show ?thesis by simp
  next
    assume "w ! p = 10"
    then have "rfind w 10 = int p" using assms(1,3) by (intro rfind_eq) auto
    with a show ?thesis by simp
  qed
qed

lemma cut_point_cases:
  "max (rfind w 46) (rfind w 10) = - 1
   \<or> (0 \<le> max (rfind w 46) (rfind w 10)
       \<and> nat (max (rfind w 46) (rfind w 10)) < length w
       \<and> (w ! nat (max (rfind w 46) (rfind w (10::nat))) = 46
            \<or> w ! nat (max (rfind w 46) (rfind w 10)) = 10))"
proof (cases "0 \<le> max (rfind w 46) (rfind w 10)")
  case False
  then show ?thesis
    using rfind_lower [of w 46] rfind_lower [of w 10] by (auto simp: max_def split: if_splits)
next
  case True
  have "nat (max (rfind w 46) (rfind w 10)) < length w"
    using True rfind_upper [of w 46] rfind_upper [of w 10]
    by (auto simp: max_def split: if_splits)
  moreover have "w ! nat (max (rfind w 46) (rfind w 10)) = 46
      \<or> w ! nat (max (rfind w 46) (rfind w 10)) = 10"
    using True rfind_nth [of w 46] rfind_nth [of w 10] by (auto simp: max_def split: if_splits)
  ultimately show ?thesis using True by simp
qed

lemma set_py_slice_to: "set (py_slice_to xs k) \<subseteq> set xs"
  by (simp add: py_slice_to_def set_take_subset)

lemma py_slice_to_is_take: "\<exists>m. py_slice_to xs k = take m xs"
  by (auto simp: py_slice_to_def)

lemma window_take:
  assumes "100 \<le> L" "L < int (length e)"
  shows "py_slice_to e (L - 100) = take (nat (L - 100)) e"
    and "length (py_slice_to e (L - 100)) = nat (L - 100)"
    and "i < nat (L - 100) \<Longrightarrow> py_slice_to e (L - 100) ! i = e ! i"
  using assms by (simp_all add: py_slice_to_def)

lemma reserved_iff: "reserved c \<longleftrightarrow> c \<in> {95, 42, 91, 93, 40, 41, 126, 96, 62, 35, 43, 45, 61, 124, 123, 125, 46, 33, 92}"
  by (simp add: reserved_def reserved_chars_def str_def) 

lemma reserved_92: "reserved 92" by (simp add: reserved_iff)

lemma reserved_46: "reserved 46" by (simp add: reserved_iff)

lemma escape_Nil: "escape [] = []" by (simp add: escape_def)

lemma escape_Cons: "escape (c # cs) = escape_char c @ escape cs"
  by (simp add: escape_def)

lemma escape_append: "escape (xs @ ys) = escape xs @ escape ys"
  by (simp add: escape_def)

lemma set_escape: "set (escape text) \<subseteq> insert 92 (set text)"
  by (auto simp: escape_def escape_char_def split: if_splits)

lemma escape_plain: "\<forall>c\<in>set text. \<not> reserved c \<Longrightarrow> escape text = text"
  by (induction "text") (simp_all add: escape_def escape_char_def)

lemma escape_replicate_a: "escape (replicate n 97) = replicate n 97"
  by (rule escape_plain) (simp add: reserved_iff)

lemma escape_example:
  "escape (replicate a 97 @ 46 # replicate b 97) = replicate a 97 @ 92 # 46 # replicate b 97"
  by (simp add: escape_append escape_replicate_a escape_Cons escape_char_def reserved_46)

lemma escape_one_reserved:
  "reserved c \<Longrightarrow>
   escape (replicate a 97 @ c # replicate b 97) = replicate a 97 @ 92 # c # replicate b 97"
  by (simp add: escape_append escape_replicate_a escape_Cons escape_char_def)

lemma escaped_ok_plain_Cons: "\<not> reserved c \<Longrightarrow> escaped_ok (c # cs) = escaped_ok cs"
  using reserved_92 by (cases cs) auto

lemma escaped_ok_escape: "escaped_ok (escape s)"
proof (induction s)
  case Nil
  show ?case by (simp add: escape_Nil)
next
  case (Cons c cs)
  show ?case
  proof (cases "reserved c")
    case True
    with Cons show ?thesis by (simp add: escape_Cons escape_char_def)
  next
    case False
    with Cons show ?thesis by (simp add: escape_Cons escape_char_def escaped_ok_plain_Cons)
  qed
qed

lemma escape_cut_at_boundary:
  "i < length (escape s) \<Longrightarrow> escape s ! i = 46 \<or> escape s ! i = 10
   \<Longrightarrow> \<exists>k. take (Suc i) (escape s) = escape (take k s)"
proof (induction s arbitrary: i)
  case Nil
  then show ?case by (simp add: escape_Nil)
next
  case (Cons c cs)
  show ?case
  proof (cases "reserved c")
    case True
    then have e: "escape (c # cs) = 92 # c # escape cs" by (simp add: escape_Cons escape_char_def)
    show ?thesis
    proof (cases i)
      case 0
      with Cons.prems e show ?thesis by simp
    next
      case (Suc i1)
      show ?thesis
      proof (cases i1)
        case 0
        have "take (Suc i) (escape (c # cs)) = escape (take 1 (c # cs))"
          using Suc 0 e True by (simp add: escape_Cons escape_char_def escape_Nil)
        then show ?thesis by blast
      next
        case (Suc i2)
        with \<open>i = Suc i1\<close> Cons.prems e have "i2 < length (escape cs)"
          "escape cs ! i2 = 46 \<or> escape cs ! i2 = 10" by simp_all
        then obtain k where "take (Suc i2) (escape cs) = escape (take k cs)"
          using Cons.IH by blast
        then have "take (Suc i) (escape (c # cs)) = escape (take (Suc k) (c # cs))"
          using Suc \<open>i = Suc i1\<close> e True by (simp add: escape_Cons escape_char_def)
        then show ?thesis by blast
      qed
    qed
  next
    case False
    then have e: "escape (c # cs) = c # escape cs" by (simp add: escape_Cons escape_char_def)
    show ?thesis
    proof (cases i)
      case 0
      have "take (Suc i) (escape (c # cs)) = escape (take 1 (c # cs))"
        using 0 e False by (simp add: escape_Cons escape_char_def escape_Nil)
      then show ?thesis by blast
    next
      case (Suc i1)
      with Cons.prems e have "i1 < length (escape cs)"
        "escape cs ! i1 = 46 \<or> escape cs ! i1 = 10" by simp_all
      then obtain k where "take (Suc i1) (escape cs) = escape (take k cs)"
        using Cons.IH by blast
      then have "take (Suc i) (escape (c # cs)) = escape (take (Suc k) (c # cs))"
        using Suc e False by (simp add: escape_Cons escape_char_def)
      then show ?thesis by blast
    qed
  qed
qed

lemma text_nonempty: "0 \<le> L \<Longrightarrow> L < int (length (escape s)) \<Longrightarrow> s \<noteq> []"
  by (auto simp: escape_Nil)

lemma length_truncation_marker: "length truncation_marker = 17"
  by (simp add: truncation_marker_def str_def)

subsection \<open>format_message\<close>

lemma format_message_defined:
  assumes "\<bar>L\<bar> < 2 ^ 53"
  shows "\<exists>out. format_message s L = Inr out"
proof -
  obtain b where "gt_mul_07 (max (rfind (py_slice_to (escape s) (L - 100)) 46)
      (rfind (py_slice_to (escape s) (L - 100)) 10)) L = Inr b"
    using gt_mul_07_defined [OF assms] by blast
  then show ?thesis by (cases b) (simp_all add: format_message_def Let_def)
qed

lemma format_message_no_boundary:
  assumes "100 \<le> L" "L < 2 ^ 53" "L < int (length (escape s))"
    and "\<forall>i<nat (L - 100). escape s ! i \<noteq> 46 \<and> escape s ! i \<noteq> 10"
  shows "format_message s L = Inr (take (nat (L - 15)) (escape s) @ truncation_marker)"
proof -
  let ?w = "py_slice_to (escape s) (L - 100)"
  have ne: "s \<noteq> []" using assms(1,3) by (intro text_nonempty [of L]) simp_all
  have "\<forall>i<length ?w. ?w ! i \<noteq> 46 \<and> ?w ! i \<noteq> 10"
    using assms(4) window_take [OF assms(1,3)] by simp
  then have cut: "max (rfind ?w 46) (rfind ?w 10) = - 1" by (rule cut_point_none)
  have gt: "gt_mul_07 (- 1) L = Inr False" using assms(1,2) by (intro gt_mul_07_negative) simp_all
  have "format_message s L = Inr (py_slice_to (escape s) (L - 15) @ truncation_marker)"
    using ne assms(3) by (simp add: format_message_def Let_def cut gt)
  moreover have "py_slice_to (escape s) (L - 15) = take (nat (L - 15)) (escape s)"
    using assms(1) by (simp add: py_slice_to_def)
  ultimately show ?thesis by simp
qed

lemma format_message_last_boundary:
  assumes "100 \<le> L" "L < 2 ^ 53" "L < int (length (escape s))"
    and "p < nat (L - 100)" "escape s ! p = 46 \<or> escape s ! p = 10"
    and "\<forall>j. p < j \<and> j < nat (L - 100) \<longrightarrow> escape s ! j \<noteq> 46 \<and> escape s ! j \<noteq> 10"
  shows "format_message s L =
     Inr ((if gt_mul_07 (int p) L = Inr True then take (Suc p) (escape s)
           else take (nat (L - 15)) (escape s)) @ truncation_marker)"
proof -
  let ?w = "py_slice_to (escape s) (L - 100)"
  note w = window_take [OF assms(1,3)]
  have ne: "s \<noteq> []" using assms(1,3) by (intro text_nonempty [of L]) simp_all
  have "p < length ?w" using assms(4) w(2) by simp
  moreover have "?w ! p = 46 \<or> ?w ! p = 10" using assms(4,5) w(3) by simp
  moreover have "\<forall>j. p < j \<and> j < length ?w \<longrightarrow> ?w ! j \<noteq> 46 \<and> ?w ! j \<noteq> 10"
    using assms(6) w(2,3) by simp
  ultimately have cut: "max (rfind ?w 46) (rfind ?w 10) = int p" by (rule cut_point_last)
  have "\<bar>L\<bar> < 2 ^ 53" using assms(1,2) by simp
  then obtain b where b: "gt_mul_07 (int p) L = Inr b" using gt_mul_07_defined by blast
  have hard: "py_slice_to (escape s) (L - 15) = take (nat (L - 15)) (escape s)"
    using assms(1) by (simp add: py_slice_to_def)
  have soft: "py_slice_to (escape s) (int p + 1) = take (Suc p) (escape s)"
    by (simp add: py_slice_to_def nat_add_distrib)
  show ?thesis
    using ne assms(3) by (cases b) (simp_all add: format_message_def Let_def cut b hard soft)
qed

text \<open>
  C1 (the result of \<open>format_message\<close> never exceeds \<open>max_length\<close>): on the hard-cut
  branch the code keeps \<open>max_length - 15\<close> characters and appends the 17-character
  truncation marker. For every text without a period or a line break whose escaped
  form is longer than \<open>max_length\<close> (with \<open>15 \<le> max_length\<close>), the result holds exactly
  \<open>max_length + 2\<close> characters, two more than the limit.
\<close>

theorem format_message_hard_cut_length:
  assumes "15 \<le> L" "L < 2 ^ 53" "L < int (length (escape text))"
    and "46 \<notin> set text" "10 \<notin> set text"
  shows "\<exists>out. format_message text L = Inr out \<and> int (length out) = L + 2"
proof -
  let ?e = "escape text"
  let ?t = "py_slice_to ?e (L - 100)"
  have ne: "text \<noteq> []" using assms(1,3) by (auto simp: escape_Nil)
  have "46 \<notin> set ?e" "10 \<notin> set ?e" using assms(4,5) set_escape [of "text"] by auto
  then have "46 \<notin> set ?t" "10 \<notin> set ?t" using set_py_slice_to [of ?e "L - 100"] by auto
  then have cut: "max (rfind ?t 46) (rfind ?t 10) = - 1" by (simp add: rfind_absent)
  have gt: "gt_mul_07 (- 1) L = Inr False" using assms(1,2) by (intro gt_mul_07_negative) simp_all
  have fm: "format_message text L = Inr (py_slice_to ?e (L - 15) @ truncation_marker)"
    using ne assms(3) by (simp add: format_message_def Let_def cut gt)
  have "int (length (py_slice_to ?e (L - 15))) = L - 15"
    using assms(1,3) by (simp add: py_slice_to_def)
  then have "int (length (py_slice_to ?e (L - 15) @ truncation_marker)) = L + 2"
    by (simp add: length_truncation_marker)
  with fm show ?thesis by simp
qed

theorem format_message_hard_cut_length_witness:
  "\<exists>out. format_message (replicate 4097 97) 4096 = Inr out \<and> int (length out) = 4096 + 2"
  using format_message_hard_cut_length [of 4096 "replicate 4097 97"]
  by (simp add: escape_plain reserved_iff)

text \<open>
  C4, as amended (escaping and truncation): for a non-empty text the result is the
  escaped text, which is well escaped; or, after a cut at a sentence boundary, the
  escaped form of a prefix of the text, again well escaped, followed by the
  truncation marker, so that this cut splits no pair; or, after the hard cut, the first
  \<open>max_length - 15\<close> characters of the escaped text followed by the marker. The
  marker itself is appended unescaped.
\<close>

theorem format_message_escaping:
  assumes "text \<noteq> []" "format_message text L = Inr out"
  shows "(\<not> L < int (length (escape text)) \<and> out = escape text \<and> escaped_ok out)
       \<or> (L < int (length (escape text))
           \<and> (\<exists>k. out = escape (take k text) @ truncation_marker \<and> escaped_ok (escape (take k text))))
       \<or> (L < int (length (escape text))
           \<and> out = py_slice_to (escape text) (L - 15) @ truncation_marker)"
proof (cases "L < int (length (escape text))")
  case False
  with assms show ?thesis by (auto simp: format_message_def Let_def escaped_ok_escape)
next
  case True
  let ?e = "escape text"
  let ?w = "py_slice_to ?e (L - 100)"
  let ?cp = "max (rfind ?w 46) (rfind ?w 10)"
  obtain m where m: "?w = take m ?e" using py_slice_to_is_take by blast
  from assms True obtain b where b: "gt_mul_07 ?cp L = Inr b"
    by (auto simp: format_message_def Let_def split: sum.splits)
  show ?thesis
  proof (cases b)
    case False
    with assms True b show ?thesis by (simp add: format_message_def Let_def)
  next
    case bt: True
    then have out: "out = py_slice_to ?e (?cp + 1) @ truncation_marker"
      using assms True b by (simp add: format_message_def Let_def)
    have "\<exists>k. py_slice_to ?e (?cp + 1) = escape (take k text)"
      using cut_point_cases [of ?w]
    proof
      assume "?cp = - 1"
      then have "py_slice_to ?e (?cp + 1) = escape (take 0 text)"
        by (simp add: py_slice_to_def escape_Nil)
      then show ?thesis by blast
    next
      assume c: "0 \<le> ?cp \<and> nat ?cp < length ?w \<and> (?w ! nat ?cp = 46 \<or> ?w ! nat ?cp = 10)"
      then have lt: "nat ?cp < m" "nat ?cp < length ?e" by (simp_all add: m)
      have "?w ! nat ?cp = ?e ! nat ?cp" using lt(1) by (simp only: m nth_take)
      with c lt have "nat ?cp < length ?e" "?e ! nat ?cp = 46 \<or> ?e ! nat ?cp = 10"
        by simp_all
      then obtain k where "take (Suc (nat ?cp)) ?e = escape (take k text)"
        using escape_cut_at_boundary by blast
      moreover have "py_slice_to ?e (?cp + 1) = take (Suc (nat ?cp)) ?e"
        using c by (simp add: py_slice_to_def nat_add_distrib)
      ultimately show ?thesis by auto
    qed
    with out True show ?thesis by (auto simp: escaped_ok_escape)
  qed
qed

theorem format_message_escaping_witness:
  "str ''a.b'' \<noteq> [] \<and> format_message (str ''a.b'') 4096 = Inr [97, 92, 46, 98]
   \<and> escaped_ok [97, 92, 46, 98]"
proof -
  have ne: "str ''a.b'' \<noteq> []" by (simp add: str_def)
  have e: "escape (str ''a.b'') = [97, 92, 46, 98]"
    by (simp add: str_def escape_def escape_char_def reserved_iff)
  have fm: "format_message (str ''a.b'') 4096 = Inr [97, 92, 46, 98]"
    using ne by (simp add: format_message_def e Let_def)
  from format_message_escaping [OF ne fm] have "escaped_ok [97, 92, 46, 98]"
    by (simp add: e)
  with ne fm show ?thesis by simp
qed

text \<open>
  The claim C4 as it is written fails for a text of 4080 letters, an exclamation mark
  and 100 letters at \<open>max_length = 4096\<close>: the hard cut falls between the backslash and
  the exclamation mark it escapes, so the kept part ends with a bare backslash, and
  the periods of the marker that follows are not preceded by a backslash.
\<close>

theorem format_message_marker_and_split_pair:
  "format_message (replicate 4080 97 @ 33 # replicate 100 97) 4096
     = Inr (replicate 4080 97 @ 92 # truncation_marker)
   \<and> reserved 33
   \<and> escape (replicate 4080 97 @ 33 # replicate 100 97) ! 4080 = 92
   \<and> escape (replicate 4080 97 @ 33 # replicate 100 97) ! 4081 = 33
   \<and> (replicate 4080 97 @ 92 # truncation_marker) ! 4080 = 92
   \<and> (replicate 4080 97 @ 92 # truncation_marker) ! 4081 = 10
   \<and> reserved 46
   \<and> (replicate 4080 97 @ 92 # truncation_marker) ! 4083 = 46
   \<and> (replicate 4080 97 @ 92 # truncation_marker) ! 4082 = 10"
proof -
  let ?s = "replicate 4080 97 @ 33 # replicate (100::nat) (97::nat)"
  have r: "reserved 33" by (simp add: reserved_iff)
  have e: "escape ?s = replicate 4080 97 @ 92 # 33 # replicate 100 97"
    using r by (rule escape_one_reserved)
  have len: "length (escape ?s) = 4182" by (simp add: e)
  have nb: "\<forall>i<nat (4096 - 100). escape ?s ! i \<noteq> 46 \<and> escape ?s ! i \<noteq> 10"
    by (auto simp: e nth_append)
  have "format_message ?s 4096 = Inr (take (nat (4096 - 15)) (escape ?s) @ truncation_marker)"
    using nb by (intro format_message_no_boundary) (simp_all add: len)
  moreover have "take (nat (4096 - 15)) (escape ?s) = replicate 4080 97 @ [92]"
    by (simp add: e)
  ultimately have fm: "format_message ?s 4096 = Inr (replicate 4080 97 @ 92 # truncation_marker)"
    by simp
  have n: "escape ?s ! 4080 = 92" "escape ?s ! 4081 = 33" by (simp_all add: e nth_append)
  have o: "(replicate 4080 97 @ 92 # truncation_marker) ! 4080 = 92"
    "(replicate 4080 97 @ 92 # truncation_marker) ! 4081 = 10"
    "(replicate 4080 97 @ 92 # truncation_marker) ! 4083 = 46"
    "(replicate 4080 97 @ 92 # truncation_marker) ! 4082 = 10"
    by (simp_all add: nth_append truncation_marker_def str_def)
  show ?thesis using fm r n o reserved_46 by simp
qed

text \<open>
  C6, as amended (where \<open>format_message\<close> cuts): let \<open>100 \<le> max_length < 2^49\<close> and let
  the escaped text be longer than \<open>max_length\<close>. If none of its first \<open>max_length - 100\<close>
  characters is a period or a line break, the result is its first \<open>max_length - 15\<close>
  characters followed by the marker. If \<open>p\<close> is the last index below \<open>max_length - 100\<close>
  that holds a period or a line break, the result is the first \<open>p + 1\<close> characters
  followed by the marker when \<open>p > max_length * 0.7\<close> holds in double precision, and the
  hard cut otherwise. That comparison holds whenever \<open>10 * p > 7 * max_length\<close> and
  fails whenever \<open>10 * p < 7 * max_length\<close>; when \<open>max_length\<close> is not a multiple of 10 it is
  exactly \<open>10 * p > 7 * max_length\<close>.
\<close>

theorem format_message_truncation:
  assumes "100 \<le> L" "L < 2 ^ 49" "L < int (length (escape text))"
  shows "((\<forall>i<nat (L - 100). escape text ! i \<noteq> 46 \<and> escape text ! i \<noteq> 10) \<longrightarrow>
            format_message text L = Inr (take (nat (L - 15)) (escape text) @ truncation_marker))
       \<and> (\<forall>p<nat (L - 100).
            (escape text ! p = 46 \<or> escape text ! p = 10)
            \<and> (\<forall>j. p < j \<and> j < nat (L - 100) \<longrightarrow> escape text ! j \<noteq> 46 \<and> escape text ! j \<noteq> 10)
            \<longrightarrow> format_message text L =
                  Inr ((if gt_mul_07 (int p) L = Inr True then take (Suc p) (escape text)
                        else take (nat (L - 15)) (escape text)) @ truncation_marker)
              \<and> (7 * L < 10 * int p \<longrightarrow> gt_mul_07 (int p) L = Inr True)
              \<and> (10 * int p < 7 * L \<longrightarrow> gt_mul_07 (int p) L = Inr False)
              \<and> (\<not> 10 dvd L \<longrightarrow> gt_mul_07 (int p) L = Inr (7 * L < 10 * int p)))"
proof -
  have L0: "0 \<le> L" using assms(1) by simp
  have L53: "L < 2 ^ 53" using assms(2) by (rule less_trans) simp
  show ?thesis
    using format_message_no_boundary [OF assms(1) L53 assms(3)]
      format_message_last_boundary [OF assms(1) L53 assms(3)]
      gt_mul_07_threshold [OF L0 assms(2)] gt_mul_07_exact [OF L0 assms(2)]
    by blast
qed

theorem format_message_truncation_witness:
  "100 \<le> (4096::int) \<and> (4096::int) < 2 ^ 49
   \<and> 4096 < int (length (escape (replicate 3276 97 @ 46 # replicate 1000 97)))
   \<and> escape (replicate 3276 97 @ 46 # replicate 1000 97) ! 3277 = 46
   \<and> format_message (replicate 3276 97 @ 46 # replicate 1000 97) 4096
       = Inr (take 3278 (escape (replicate 3276 97 @ 46 # replicate 1000 97)) @ truncation_marker)
   \<and> 4096 < int (length (escape (replicate 5000 97)))
   \<and> format_message (replicate 5000 97) 4096
       = Inr (take 4081 (escape (replicate 5000 97)) @ truncation_marker)"
proof -
  let ?s = "replicate 3276 97 @ 46 # replicate (1000::nat) (97::nat)"
  let ?t = "replicate (5000::nat) (97::nat)"
  have e: "escape ?s = replicate 3276 97 @ 92 # 46 # replicate 1000 97" by (rule escape_example)
  have len: "length (escape ?s) = 4278" by (simp add: e)
  have h1: "100 \<le> (4096::int)" by simp
  have h2: "(4096::int) < 2 ^ 49" by simp
  have h3: "4096 < int (length (escape ?s))" by (simp add: len)
  have p: "(3277::nat) < nat (4096 - 100)" by simp
  have at: "escape ?s ! 3277 = 46" by (simp add: e nth_append)
  have after: "\<forall>j. 3277 < j \<and> j < nat (4096 - 100) \<longrightarrow> escape ?s ! j \<noteq> 46 \<and> escape ?s ! j \<noteq> 10"
    by (auto simp: e nth_append)
  from format_message_truncation [OF h1 h2 h3]
  have "(escape ?s ! 3277 = 46 \<or> escape ?s ! 3277 = 10)
        \<and> (\<forall>j. 3277 < j \<and> j < nat (4096 - 100) \<longrightarrow> escape ?s ! j \<noteq> 46 \<and> escape ?s ! j \<noteq> 10)
        \<longrightarrow> format_message ?s 4096 =
              Inr ((if gt_mul_07 (int 3277) 4096 = Inr True then take (Suc 3277) (escape ?s)
                    else take (nat (4096 - 15)) (escape ?s)) @ truncation_marker)
          \<and> (7 * 4096 < 10 * int 3277 \<longrightarrow> gt_mul_07 (int 3277) 4096 = Inr True)
          \<and> (10 * int 3277 < 7 * 4096 \<longrightarrow> gt_mul_07 (int 3277) 4096 = Inr False)
          \<and> (\<not> 10 dvd (4096::int) \<longrightarrow> gt_mul_07 (int 3277) 4096 = Inr (7 * 4096 < 10 * int 3277))"
    using p by blast
  with at after have "format_message ?s 4096 =
              Inr ((if gt_mul_07 (int 3277) 4096 = Inr True then take (Suc 3277) (escape ?s)
                    else take (nat (4096 - 15)) (escape ?s)) @ truncation_marker)"
     and "gt_mul_07 (int 3277) 4096 = Inr True" by simp_all
  then have soft: "format_message ?s 4096 = Inr (take 3278 (escape ?s) @ truncation_marker)" by simp
  have et: "escape ?t = ?t" by (rule escape_replicate_a)
  have g3: "4096 < int (length (escape ?t))" by (simp add: et)
  have nb: "\<forall>i<nat (4096 - 100). escape ?t ! i \<noteq> 46 \<and> escape ?t ! i \<noteq> 10" by (simp add: et)
  from format_message_truncation [OF h1 h2 g3] nb
  have "format_message ?t 4096 = Inr (take (nat (4096 - 15)) (escape ?t) @ truncation_marker)"
    by blast
  then have hard: "format_message ?t 4096 = Inr (take 4081 (escape ?t) @ truncation_marker)" by simp
  from h1 h2 h3 at soft g3 hard show ?thesis by blast
qed

text \<open>
  The claim C6 as it is written fails at \<open>max_length = 200\<close>: the escaped text has its
  only period at index 160, which is \<open>0.8 * max_length\<close>, but the boundary is searched
  in the first 100 characters only, so the text is hard-cut at 185 and not at the period.
\<close>

theorem format_message_period_outside_window:
  "escape (replicate 159 97 @ 46 # replicate 100 97) ! 160 = 46
   \<and> 10 * (160::int) = 8 * 200
   \<and> 200 < int (length (escape (replicate 159 97 @ 46 # replicate 100 97)))
   \<and> format_message (replicate 159 97 @ 46 # replicate 100 97) 200
       = Inr (take 185 (escape (replicate 159 97 @ 46 # replicate 100 97)) @ truncation_marker)
   \<and> format_message (replicate 159 97 @ 46 # replicate 100 97) 200
       \<noteq> Inr (take 161 (escape (replicate 159 97 @ 46 # replicate 100 97)) @ truncation_marker)"
proof -
  let ?s = "replicate 159 97 @ 46 # replicate (100::nat) (97::nat)"
  have e: "escape ?s = replicate 159 97 @ 92 # 46 # replicate 100 97" by (rule escape_example)
  have a: "escape ?s ! 160 = 46" by (simp add: e nth_append)
  have len: "length (escape ?s) = 261" by (simp add: e)
  have nb: "\<forall>i<nat (200 - 100). escape ?s ! i \<noteq> 46 \<and> escape ?s ! i \<noteq> 10"
    by (simp add: e nth_append)
  have fm: "format_message ?s 200 = Inr (take (nat (200 - 15)) (escape ?s) @ truncation_marker)"
    using nb by (intro format_message_no_boundary) (simp_all add: len)
  then have fm': "format_message ?s 200 = Inr (take 185 (escape ?s) @ truncation_marker)" by simp
  have "length (take 185 (escape ?s)) \<noteq> length (take 161 (escape ?s))" by (simp add: len)
  then have "take 185 (escape ?s) \<noteq> take 161 (escape ?s)" by metis
  then show ?thesis using a len fm' by simp
qed

subsection \<open>rate_limit_check\<close>

lemma rate_limit_check_verdict:
  "fst (rate_limit_check u reqs cfg now) \<longleftrightarrow>
     int (length (filter (\<lambda>t. now - rate_limit_window cfg * 1000000 < t) (request_log reqs u)))
       < rate_limit_messages cfg"
  by (auto simp: rate_limit_check_def request_log_def Let_def split: option.splits)

lemma rate_limit_check_log:
  "snd (rate_limit_check u reqs cfg now) u =
     Some (filter (\<lambda>t. now - rate_limit_window cfg * 1000000 < t) (request_log reqs u)
           @ (if fst (rate_limit_check u reqs cfg now) then [now] else []))"
  by (auto simp: rate_limit_check_def request_log_def Let_def split: option.splits)

lemma rate_limit_check_frame:
  "v \<noteq> u \<Longrightarrow> snd (rate_limit_check u reqs cfg now) v = reqs v"
  by (auto simp: rate_limit_check_def Let_def split: option.splits)


lemma rate_limit_first_call:
  assumes "\<forall>s\<in>set (request_log reqs u). s \<le> t - 60000000"
  shows "rate_limit_check u reqs (Config a) t = (True, reqs(u \<mapsto> [t]))"
proof -
  have "filter (\<lambda>s. t - 60000000 < s) (request_log reqs u) = []"
    using assms by (auto simp: filter_empty_conv)
  then show ?thesis
    by (auto simp: rate_limit_check_def Config_def request_log_def Let_def split: option.splits)
qed

lemma rate_limit_later_call:
  "rate_limit_check u (reqs(u \<mapsto> log)) (Config a) t =
     (let kept = filter (\<lambda>s. t - 60000000 < s) log
      in if 10 \<le> int (length kept) then (False, reqs(u \<mapsto> kept))
         else (True, reqs(u \<mapsto> kept @ [t])))"
  by (simp add: rate_limit_check_def Config_def Let_def)

lemma rate_limit_scenario:
  assumes "\<forall>s\<in>set (request_log reqs u). s \<le> t - 60000000"
  shows "fst (rate_limit_calls u reqs (Config a) [t, t, t, t, t, t, t, t, t, t, t])
           = [True, True, True, True, True, True, True, True, True, True, False]"
    and "fst (rate_limit_calls u reqs (Config a) [t, t, t, t, t, t, t, t, t, t, t + 61000000])
           = [True, True, True, True, True, True, True, True, True, True, True]"
  by (simp_all add: rate_limit_first_call [OF assms] rate_limit_later_call Let_def split: prod.splits)

lemma example_accepted:
  "fst (rate_limit_check 7 Map.empty (Config 1) 0)"
  by (simp add: rate_limit_check_def Config_def Let_def)

text \<open>
  C5, as amended (the sliding window): \<open>rate_limit_check\<close> keeps the logged instants
  that are later than \<open>now - window\<close> and discards those at or before it. It accepts
  exactly when fewer than \<open>rate_limit_messages\<close> instants are kept; the log of the user
  then holds the kept instants followed by \<open>now\<close>, and the kept instants alone after a
  rejection. The logs of other users are unchanged. With the configured window of 60
  seconds and limit of 10, for a user with no request in the last 60 seconds, ten
  calls at one instant are accepted and an eleventh at that instant is rejected, and a
  call 61 seconds after ten calls is accepted.
\<close>

theorem rate_limit_check_window:
  "(fst (rate_limit_check u reqs cfg now) \<longleftrightarrow>
      int (length (filter (\<lambda>t. now - rate_limit_window cfg * 1000000 < t) (request_log reqs u)))
        < rate_limit_messages cfg)
   \<and> snd (rate_limit_check u reqs cfg now) u =
       Some (filter (\<lambda>t. now - rate_limit_window cfg * 1000000 < t) (request_log reqs u)
             @ (if fst (rate_limit_check u reqs cfg now) then [now] else []))
   \<and> (\<forall>v. v \<noteq> u \<longrightarrow> snd (rate_limit_check u reqs cfg now) v = reqs v)
   \<and> ((\<forall>s\<in>set (request_log reqs u). s \<le> t - 60000000) \<longrightarrow>
        fst (rate_limit_calls u reqs (Config a) [t, t, t, t, t, t, t, t, t, t, t])
          = [True, True, True, True, True, True, True, True, True, True, False]
      \<and> fst (rate_limit_calls u reqs (Config a) [t, t, t, t, t, t, t, t, t, t, t + 61000000])
          = [True, True, True, True, True, True, True, True, True, True, True])"
  using rate_limit_check_verdict [of u reqs cfg now] rate_limit_check_log [of u reqs cfg now]
    rate_limit_check_frame [of _ u reqs cfg now] rate_limit_scenario [of reqs u t a]
  by blast

theorem rate_limit_check_window_witness:
  "fst (rate_limit_calls 7 Map.empty (Config 1) [5, 5, 5, 5, 5, 5, 5, 5, 5, 5, 5])
     = [True, True, True, True, True, True, True, True, True, True, False]
   \<and> fst (rate_limit_calls 7 Map.empty (Config 1) [5, 5, 5, 5, 5, 5, 5, 5, 5, 5, 5 + 61000000])
     = [True, True, True, True, True, True, True, True, True, True, True]
   \<and> snd (rate_limit_check 7 Map.empty (Config 1) 5) 8 = None"
  using rate_limit_check_window [of 7 Map.empty "Config 1" 5 5 1]
  by (simp add: request_log_def)

text \<open>
  The claim C5 as it is written fails for a call exactly 60 seconds after ten requests:
  none of the ten instants is older than \<open>now - window\<close>, so the rule of the claim
  rejects the call, while the code discards them and accepts it.
\<close>

theorem rate_limit_check_boundary:
  "fst (rate_limit_check 1 (Map.empty(1 \<mapsto> [0, 0, 0, 0, 0, 0, 0, 0, 0, 0])) (Config 0) 60000000)
   \<and> \<not> fst (rate_limit_check_as_claimed 1 (Map.empty(1 \<mapsto> [0, 0, 0, 0, 0, 0, 0, 0, 0, 0]))
            (Config 0) 60000000)"
  by (simp add: rate_limit_check_def rate_limit_check_as_claimed_def Config_def request_log_def Let_def)

subsection \<open>handle_message\<close>

lemma history_count [simp]:
  "history (count_message self) u = history self u"
  "history (count_error self) u = history self u"
  by (simp_all add: history_def count_message_def count_error_def)

lemma history_requests [simp]: "history (self\<lparr>user_requests := r\<rparr>) u = history self u"
  by (simp add: history_def)

lemma history_message_turns:
  "history (fst (message_turns self upd e)) (effective_user_id upd) =
     py_slice_from (history self (effective_user_id upd)
        @ [\<lparr>role = RoleUser, content = message_text upd, timestamp = now_user_turn e\<rparr>]) (- 20)
     @ [\<lparr>role = RoleAssistant, content = snd (message_turns self upd e),
          timestamp = now_assistant_turn e\<rparr>]"
  by (simp add: message_turns_def Let_def history_def)

lemma handle_message_history:
  assumes "fst (rate_limit_check (effective_user_id upd) (user_requests self) (config self) (now_check e))"
    and "transport e (ReplyChatAction Typing) = None"
  shows "history (fst (handle_message self upd e)) u =
         history (fst (message_turns (self\<lparr>user_requests :=
            snd (rate_limit_check (effective_user_id upd) (user_requests self) (config self) (now_check e))\<rparr>) upd e)) u"
  using assms
  by (auto simp: handle_message_def split: prod.splits sum.splits option.splits bool.splits)

text \<open>
  C2 (a history never holds more than 20 turns): \<open>handle_message\<close> trims the history
  to its last 20 turns after appending the user turn, and appends the assistant turn
  without trimming again. When the rate limiter accepts a message of a user whose
  history holds 19 turns or more, the history holds 21 turns after the handler.
\<close>

theorem handle_message_history_21:
  assumes "fst (rate_limit_check (effective_user_id upd) (user_requests self) (config self) (now_check e))"
    and "transport e (ReplyChatAction Typing) = None"
    and "19 \<le> length (history self (effective_user_id upd))"
  shows "length (history (fst (handle_message self upd e)) (effective_user_id upd)) = 21"
  using assms(3)
  by (simp add: handle_message_history [OF assms(1,2)] history_message_turns py_slice_from_def)

theorem handle_message_history_21_witness:
  "19 \<le> length (history (example_bot\<lparr>user_contexts := [7 \<mapsto> example_turns]\<rparr>) 7)
   \<and> length (history (fst (handle_message (example_bot\<lparr>user_contexts := [7 \<mapsto> example_turns]\<rparr>)
                 example_update example_env)) 7) = 21"
  using handle_message_history_21 [of example_update
      "example_bot\<lparr>user_contexts := [7 \<mapsto> example_turns]\<rparr>" example_env]
    example_accepted
  by (simp add: example_update_def example_bot_def example_env_def TelegramBot_def history_def
      example_turns_def)

lemma ai_failure_response:
  assumes "\<And>r. client e r = Inl d"
  shows "snd (message_turns self upd e) = str ''Error: '' @ d"
  using assms by (simp add: message_turns_def Let_def chat_with_context_def generate_response_def)

lemma stats_message_turns [simp]: "stats (fst (message_turns self upd e)) = stats self"
  by (simp add: message_turns_def Let_def)

text \<open>
  C3 (a failure of the AI collaborator increments \<open>errors\<close>): the methods of
  \<open>GeminiHandler\<close> catch the exception of the client and return the text
  \<open>Error: <description>\<close>. For an accepted message whose AI call fails, on a platform that
  delivers the replies, \<open>handle_message\<close> sends that text through \<open>format_message\<close>,
  increments \<open>messages_processed\<close> and leaves \<open>errors\<close> as it was.
\<close>

theorem handle_message_ai_failure:
  assumes "fst (rate_limit_check (effective_user_id upd) (user_requests self) (config self) (now_check e))"
    and "transport e (ReplyChatAction Typing) = None"
    and "\<And>t. transport e (ReplyText t) = None"
    and "\<bar>max_message_length (config self)\<bar> < 2 ^ 53"
    and "\<And>r. client e r = Inl d"
  shows "\<exists>formatted.
           format_message (str ''Error: '' @ d) (max_message_length (config self)) = Inr formatted
         \<and> snd (handle_message self upd e) = ([ReplyChatAction Typing, ReplyText formatted], None)
         \<and> messages_processed (stats (fst (handle_message self upd e)))
             = messages_processed (stats self) + 1
         \<and> errors (stats (fst (handle_message self upd e))) = errors (stats self)"
proof -
  obtain formatted where f:
    "format_message (str ''Error: '' @ d) (max_message_length (config self)) = Inr formatted"
    using format_message_defined [OF assms(4)] by blast
  obtain r where rl:
    "rate_limit_check (effective_user_id upd) (user_requests self) (config self) (now_check e)
       = (True, r)"
    using assms(1)
    by (cases "rate_limit_check (effective_user_id upd) (user_requests self) (config self) (now_check e)") simp
  let ?s = "self\<lparr>user_requests := r\<rparr>"
  obtain s1 where mt: "message_turns ?s upd e = (s1, str ''Error: '' @ d)"
    using ai_failure_response [of e d ?s upd] assms(5) by (metis prod.collapse)
  have "stats s1 = stats ?s" using stats_message_turns [of ?s upd e] by (simp add: mt)
  then have st: "stats s1 = stats self" by simp
  have hm: "handle_message self upd e
      = (count_message s1, [ReplyChatAction Typing, ReplyText formatted], None)"
    by (simp add: handle_message_def rl mt f assms(2,3))
  show ?thesis
    using f by (intro exI [of _ formatted]) (simp add: hm count_message_def st)
qed

theorem handle_message_ai_failure_witness:
  "messages_processed (stats (fst (handle_message example_bot example_update example_env))) = 1
   \<and> errors (stats (fst (handle_message example_bot example_update example_env))) = 0
   \<and> (\<exists>formatted. format_message (str ''Error: '' @ str ''quota exceeded'') 4096 = Inr formatted
        \<and> snd (handle_message example_bot example_update example_env)
            = ([ReplyChatAction Typing, ReplyText formatted], None))"
proof -
  have a: "fst (rate_limit_check (effective_user_id example_update) (user_requests example_bot)
             (config example_bot) (now_check example_env))"
    using example_accepted
    by (simp add: example_update_def example_bot_def example_env_def TelegramBot_def)
  have b: "transport example_env (ReplyChatAction Typing) = None"
    by (simp add: example_env_def)
  have c: "transport example_env (ReplyText t) = None" for t
    by (simp add: example_env_def)
  have d: "\<bar>max_message_length (config example_bot)\<bar> < 2 ^ 53"
    by (simp add: example_bot_def TelegramBot_def Config_def)
  have e: "client example_env r = Inl (str ''quota exceeded'')" for r
    by (simp add: example_env_def failing_client_def)
  have m: "messages_processed (stats example_bot) = 0" "errors (stats example_bot) = 0"
    "max_message_length (config example_bot) = 4096"
    by (simp_all add: example_bot_def TelegramBot_def Config_def)
  from handle_message_ai_failure [OF a b c d e] show ?thesis
    unfolding m by auto
qed

subsection \<open>The commands and the dispatcher\<close>




lemma stats_requests [simp]: "stats (self\<lparr>user_requests := r\<rparr>) = stats self"
  by simp

lemma counters_le_refl [simp]: "counters_le a a"
  by (simp add: counters_le_def)

lemma counters_le_count [simp]:
  "counters_le a (stats self) \<Longrightarrow> counters_le a (stats (count_message self))"
  "counters_le a (stats self) \<Longrightarrow> counters_le a (stats (count_error self))"
  "counters_le a (stats self) \<Longrightarrow> counters_le a (stats (count_analysis self))"
  "counters_le a (stats self) \<Longrightarrow> counters_le a (stats (count_generation self))"
  by (simp_all add: counters_le_def count_message_def count_error_def count_analysis_def
      count_generation_def)

lemma start_time_count [simp]:
  "start_time (count_message self) = start_time self"
  "start_time (count_error self) = start_time self"
  "start_time (count_analysis self) = start_time self"
  "start_time (count_generation self) = start_time self"
  by (simp_all add: count_message_def count_error_def count_analysis_def count_generation_def)

lemma start_time_message_turns [simp]:
  "start_time (fst (message_turns self upd e)) = start_time self"
  by (simp add: message_turns_def Let_def)

lemma handle_message_counters:
  "counters_le (stats self) (stats (fst (handle_message self upd e)))
   \<and> start_time (fst (handle_message self upd e)) = start_time self"
proof -
  have *: "\<And>s r. message_turns self upd e = (s, r) \<Longrightarrow> stats s = stats self \<and> start_time s = start_time self" for self
    using stats_message_turns start_time_message_turns by (metis fst_conv)
  show ?thesis
    by (auto simp: handle_message_def send_def dest!: *
        split: prod.splits sum.splits option.splits bool.splits)
qed

lemma generate_try_counters:
  "counters_le (stats self) (stats (fst (generate_try self prompt e)))
   \<and> start_time (fst (generate_try self prompt e)) = start_time self"
  by (auto simp: generate_try_def Let_def split: prod.splits option.splits)

lemma generate_command_counters:
  "counters_le (stats self) (stats (fst (generate_command self upd e)))
   \<and> start_time (fst (generate_command self upd e)) = start_time self"
proof -
  have *: "generate_try s p e = (s', rest) \<Longrightarrow>
      counters_le (stats s) (stats s') \<and> start_time s' = start_time s" for s p s' rest
    using generate_try_counters [of s p e] by simp
  show ?thesis
    by (auto simp: generate_command_def send_def Let_def dest!: *
        split: prod.splits option.splits bool.splits)
qed

lemma photo_try_counters:
  "counters_le (stats self) (stats (fst (photo_try self upd e)))
   \<and> start_time (fst (photo_try self upd e)) = start_time self"
  by (auto simp: photo_try_def send_def Let_def split: prod.splits option.splits sum.splits)

lemma handle_photo_counters:
  "counters_le (stats self) (stats (fst (handle_photo self upd e)))
   \<and> start_time (fst (handle_photo self upd e)) = start_time self"
proof -
  have *: "photo_try s upd e = (s', rest) \<Longrightarrow>
      counters_le (stats s) (stats s') \<and> start_time s' = start_time s" for s s' rest
    using photo_try_counters [of s upd e] by simp
  show ?thesis
    by (auto simp: handle_photo_def send_def Let_def dest!: *
        split: prod.splits option.splits bool.splits)
qed

lemma simple_commands_counters:
  "fst (start_command self upd e) = self"
  "fst (help_command self upd e) = self"
  "fst (status_command self upd e) = self"
  "fst (admin_command self upd e) = self"
  "fst (stats_command self upd e) = self"
  "stats (fst (clear_command self upd e)) = stats self"
  "start_time (fst (clear_command self upd e)) = start_time self"
  by (simp_all add: start_command_def help_command_def status_command_def admin_command_def
      stats_command_def clear_command_def Let_def split: prod.splits)

text \<open>
  C9 (counters): whatever handler runs, with whatever update and whatever the
  collaborators do, none of the four counters decreases, and \<open>uptime_start\<close> and
  \<open>start_time\<close> keep their values.
\<close>

theorem counters_never_decrease:
  "messages_processed (stats self) \<le> messages_processed (stats (fst (dispatch h self upd e)))
   \<and> images_analyzed (stats self) \<le> images_analyzed (stats (fst (dispatch h self upd e)))
   \<and> images_generated (stats self) \<le> images_generated (stats (fst (dispatch h self upd e)))
   \<and> errors (stats self) \<le> errors (stats (fst (dispatch h self upd e)))
   \<and> uptime_start (stats (fst (dispatch h self upd e))) = uptime_start (stats self)
   \<and> start_time (fst (dispatch h self upd e)) = start_time self"
proof -
  have "counters_le (stats self) (stats (fst (dispatch h self upd e)))
        \<and> start_time (fst (dispatch h self upd e)) = start_time self"
    by (cases h)
      (simp_all add: dispatch_def simple_commands_counters handle_message_counters
        generate_command_counters handle_photo_counters split: prod.splits)
  then show ?thesis by (simp add: counters_le_def)
qed




end
